theory Spec2Isabelle
  imports Main "HOL-Library.AList" "HOL-Library.Sublist"
begin

section \<open>Data model\<close>

text \<open>
  The client of \<^verbatim>\<open>adobeanalytics2.py\<close>. JSON scalars are strings or numbers; a Python
  dictionary is an association list, so that the insertion order of its keys is kept:
  \<open>AList.update\<close> overwrites a key in place and appends a new one at the end, as an
  assignment \<^verbatim>\<open>d[k] = v\<close> does.
\<close>

datatype jval = JStr string | JNum int

type_synonym pydict = "(string \<times> jval) list"

text \<open>The exceptions the modelled code can raise. \<^verbatim>\<open>raise Exception(msg)\<close> is \<open>PyException msg\<close>.\<close>

datatype error =
    PyException string
  | AttributeError
  | IndexError
  | KeyError string
  | AssertionError string

text \<open>One element of the \<^verbatim>\<open>rows\<close> of a report response, and the response itself
  (\<^verbatim>\<open>resp["columns"]["dimension"]["id"]\<close> and \<^verbatim>\<open>resp["rows"]\<close>).\<close>

record row =
  itemId :: string
  row_value :: string
  row_data :: "jval list"

record response =
  columns_dimension_id :: string
  rows :: "row list"

text \<open>The request body built by \<^verbatim>\<open>build_report_body_json\<close>.\<close>

record metric =
  columnId :: nat
  metric_id :: string
  filters :: "nat list option"

record metric_filter =
  filter_id :: nat
  filter_type :: string
  filter_dimension :: "string option"
  filter_itemId :: "string option"

datatype global_filter = DateRange string | SegmentFilter string

record report_body =
  body_rsid :: string
  globalFilters :: "global_filter list"
  metrics :: "metric list"
  metricFilters :: "metric_filter list"
  dimension :: "string option"
  countRepeatInstances :: bool
  limit :: int
  search :: "string option"

text \<open>
  What a call depends on besides its arguments: the report suite id of the instance, the
  reporting endpoint (a function from the posted body to the parsed response) and the
  calendar date of the process, already formatted as \<^verbatim>\<open>%Y-%m-%d\<close>.
\<close>

record env =
  env_rsid :: string
  env_post :: "report_body \<Rightarrow> response"
  env_today :: string
  env_yesterday :: string

text \<open>Python's truth value of an optional string: \<^verbatim>\<open>None\<close> and \<^verbatim>\<open>""\<close> are false.\<close>

fun truthy :: "string option \<Rightarrow> bool" where
  "truthy None = False"
| "truthy (Some s) = (s \<noteq> [])"

section \<open>The report builder\<close>

text \<open>The loop \<^verbatim>\<open>for idx, met in enumerate(mets)\<close>, with the two lists it appends to.\<close>

fun build_metrics ::
  "string option \<Rightarrow> string option \<Rightarrow> string option \<Rightarrow> (nat \<times> string) list \<Rightarrow>
   metric list \<times> metric_filter list \<Rightarrow> metric list \<times> metric_filter list" where
  "build_metrics dim breakdown_dimension item_id [] acc = acc"
| "build_metrics dim breakdown_dimension item_id ((idx, met) # rest) (ms, fs) =
     build_metrics dim breakdown_dimension item_id rest
       (ms @ [\<lparr>columnId = idx, metric_id = met,
               filters = (if truthy breakdown_dimension then Some [idx] else None)\<rparr>],
        (if truthy dim
         then fs @ [\<lparr>filter_id = idx, filter_type = ''breakdown'',
                     filter_dimension = breakdown_dimension, filter_itemId = item_id\<rparr>]
         else fs))"

text \<open>
  \<^verbatim>\<open>build_report_body_json\<close>. The last step reads \<^verbatim>\<open>search_query.keys()\<close>, which raises
  AttributeError when \<^verbatim>\<open>search_query\<close> is \<^verbatim>\<open>None\<close>.
\<close>

definition build_report_body_json ::
  "env \<Rightarrow> string list \<Rightarrow> string option \<Rightarrow> string list option \<Rightarrow> (string \<times> string) list option \<Rightarrow>
   string option \<Rightarrow> string option \<Rightarrow> string \<Rightarrow> int \<Rightarrow> error + report_body" where
  "build_report_body_json e mets dim segments search_query breakdown_dimension item_id date_range lim =
     (let (ms, fs) = build_metrics dim breakdown_dimension item_id (enumerate 0 mets) ([], []);
          report_body = \<lparr>body_rsid = env_rsid e,
                         globalFilters = [DateRange date_range],
                         metrics = ms,
                         metricFilters = fs,
                         dimension = dim,
                         countRepeatInstances = True,
                         limit = lim,
                         search = None\<rparr>;
          report_body = (case segments of
                           None \<Rightarrow> report_body
                         | Some segs \<Rightarrow>
                             report_body\<lparr>globalFilters := globalFilters report_body @ map SegmentFilter segs\<rparr>)
      in case search_query of
           None \<Rightarrow> Inl AttributeError
         | Some sq \<Rightarrow>
             (case dim of
                None \<Rightarrow> Inr report_body
              | Some d \<Rightarrow>
                  (case map_of sq d of
                     None \<Rightarrow> Inr report_body
                   | Some clause \<Rightarrow> Inr (report_body\<lparr>search := Some clause\<rparr>))))"

text \<open>
  \<^verbatim>\<open>_get_report\<close>: the dates default to yesterday and today, the body is built and, when
  that did not raise, posted. The list of bodies posted so far is threaded through.
\<close>

definition get_report ::
  "env \<Rightarrow> string list \<Rightarrow> string option \<Rightarrow> string list option \<Rightarrow> (string \<times> string) list option \<Rightarrow>
   string option \<Rightarrow> string option \<Rightarrow> string option \<Rightarrow> string option \<Rightarrow> int \<Rightarrow>
   report_body list \<Rightarrow> report_body list \<times> (error + response)" where
  "get_report e mets dim segments search_query breakdown_dimension item_id start_date end_date lim posted =
     (let start_date = (case start_date of None \<Rightarrow> env_yesterday e | Some s \<Rightarrow> s);
          end_date = (case end_date of None \<Rightarrow> env_today e | Some s \<Rightarrow> s);
          midnight = ''T00:00:00.000'';
          date_range = start_date @ midnight @ ''/'' @ end_date @ midnight
      in case build_report_body_json e mets dim segments search_query breakdown_dimension item_id
                date_range lim of
           Inl err \<Rightarrow> (posted, Inl err)
         | Inr report_body \<Rightarrow> (posted @ [report_body], Inr (env_post e report_body)))"

section \<open>Tables\<close>

text \<open>
  The part of the pandas DataFrame the assembler uses: an ordered list of column names and
  the rows in order, each row a dictionary from column name to cell (a column missing
  from a row is a NaN cell). Row labels are not kept: the code only ever writes the labels
  \<open>0, 1, 2, ...\<close> in order, so label \<open>j\<close> is position \<open>j\<close>. The operations are those
  of the pandas versions the code is written for, which still have \<^verbatim>\<open>DataFrame.append\<close>.
\<close>

record dataframe =
  df_columns :: "string list"
  df_rows :: "pydict list"

definition empty_df :: dataframe where
  "empty_df = \<lparr>df_columns = [], df_rows = []\<rparr>"

text \<open>\<^verbatim>\<open>df.loc[j, c] = v\<close>: the cell is set; a missing column is added at the end and a
  missing row after the last one (setting with enlargement).\<close>

definition loc_set :: "dataframe \<Rightarrow> nat \<Rightarrow> string \<Rightarrow> jval \<Rightarrow> dataframe" where
  "loc_set df j c v =
     \<lparr>df_columns = (if c \<in> set (df_columns df) then df_columns df else df_columns df @ [c]),
      df_rows = (if j < length (df_rows df)
                 then (df_rows df)[j := AList.update c v (df_rows df ! j)]
                 else df_rows df @ [[(c, v)]])\<rparr>"

text \<open>\<^verbatim>\<open>pd.DataFrame.from_dict(d)\<close> for a dictionary of one-element lists: one row, the
  columns in the order of the keys.\<close>

definition from_dict :: "pydict \<Rightarrow> dataframe" where
  "from_dict d = \<lparr>df_columns = map fst d, df_rows = [d]\<rparr>"

text \<open>\<^verbatim>\<open>df.append(other)\<close>: the rows of both, the columns of \<open>df\<close> followed by the new
  ones of \<open>other\<close>.\<close>

definition df_append :: "dataframe \<Rightarrow> dataframe \<Rightarrow> dataframe" where
  "df_append df other =
     \<lparr>df_columns = df_columns df @ filter (\<lambda>c. c \<notin> set (df_columns df)) (df_columns other),
      df_rows = df_rows df @ df_rows other\<rparr>"

text \<open>
  \<^verbatim>\<open>left.merge(right, left_on="item_id", right_on="item_id")\<close>: an inner join on the key
  column, in the order of the left rows. A column other than the key that both tables
  have is renamed, with suffix \<^verbatim>\<open>_x\<close> on the left and \<^verbatim>\<open>_y\<close> on the right. The key must be
  a column of both tables, KeyError otherwise.
\<close>

definition suffixed :: "string list \<Rightarrow> string \<Rightarrow> string \<Rightarrow> string" where
  "suffixed overlap sfx c = (if c \<in> set overlap then c @ sfx else c)"

definition merge_row :: "string list \<Rightarrow> pydict \<Rightarrow> pydict \<Rightarrow> pydict" where
  "merge_row overlap l r =
     map (\<lambda>(c, v). (suffixed overlap ''_x'' c, v)) l @
     map (\<lambda>(c, v). (suffixed overlap ''_y'' c, v)) (filter (\<lambda>(c, v). c \<noteq> ''item_id'') r)"

definition merge_on_item_id :: "dataframe \<Rightarrow> dataframe \<Rightarrow> error + dataframe" where
  "merge_on_item_id left right =
     (if ''item_id'' \<in> set (df_columns left) \<and> ''item_id'' \<in> set (df_columns right)
      then
        (let overlap = filter (\<lambda>c. c \<in> set (df_columns right) \<and> c \<noteq> ''item_id'') (df_columns left)
         in Inr \<lparr>df_columns =
                   map (suffixed overlap ''_x'') (df_columns left) @
                   map (suffixed overlap ''_y'') (filter (\<lambda>c. c \<noteq> ''item_id'') (df_columns right)),
                 df_rows =
                   concat (map (\<lambda>l. map (merge_row overlap l)
                                      (filter (\<lambda>r. map_of r ''item_id'' = map_of l ''item_id'')
                                              (df_rows right)))
                               (df_rows left))\<rparr>)
      else Inl (KeyError ''item_id''))"

text \<open>\<^verbatim>\<open>df.drop(["item_id"], axis=1)\<close>: KeyError when there is no such column.\<close>

definition drop_item_id :: "dataframe \<Rightarrow> error + dataframe" where
  "drop_item_id df =
     (if ''item_id'' \<notin> set (df_columns df) then Inl (KeyError ''item_id'')
      else Inr \<lparr>df_columns = filter (\<lambda>c. c \<noteq> ''item_id'') (df_columns df),
                df_rows = map (filter (\<lambda>(c, v). c \<noteq> ''item_id'')) (df_rows df)\<rparr>)"

section \<open>The freeform report assembler\<close>

text \<open>Stage 1, \<^verbatim>\<open>for j, row in enumerate(resp_1["rows"])\<close>: two cells per row.\<close>

fun fill_result_df :: "string \<Rightarrow> (nat \<times> row) list \<Rightarrow> dataframe \<Rightarrow> dataframe" where
  "fill_result_df dim [] result_df = result_df"
| "fill_result_df dim ((j, r) # rest) result_df =
     fill_result_df dim rest
       (loc_set (loc_set result_df j ''item_id'' (JStr (itemId r))) j dim (JStr (row_value r)))"

text \<open>Stage 2, \<^verbatim>\<open>for j, value in enumerate(row["data"])\<close>: \<^verbatim>\<open>mets[j]\<close> raises IndexError
  when the row has more values than there are metrics.\<close>

fun fill_data_dict :: "string list \<Rightarrow> (nat \<times> jval) list \<Rightarrow> pydict \<Rightarrow> error + pydict" where
  "fill_data_dict mets [] data_dict = Inr data_dict"
| "fill_data_dict mets ((j, v) # rest) data_dict =
     (if j < length mets then fill_data_dict mets rest (AList.update (mets ! j) v data_dict)
      else Inl IndexError)"

text \<open>The dictionary of one stage-2 row: the item id, the value of the row under the
  dimension, then the metric values.\<close>

definition make_data_dict :: "string list \<Rightarrow> string \<Rightarrow> string \<Rightarrow> row \<Rightarrow> error + pydict" where
  "make_data_dict mets dim item_id r =
     fill_data_dict mets (enumerate 0 (row_data r))
       (AList.update dim (JStr (row_value r)) (AList.update ''item_id'' (JStr item_id) []))"

text \<open>\<^verbatim>\<open>for row in resp_2["rows"]\<close>: one appended row each.\<close>

fun rows_loop :: "string list \<Rightarrow> string \<Rightarrow> string \<Rightarrow> row list \<Rightarrow> dataframe \<Rightarrow> error + dataframe" where
  "rows_loop mets dim item_id [] data_df = Inr data_df"
| "rows_loop mets dim item_id (r # rest) data_df =
     (case make_data_dict mets dim item_id r of
        Inl err \<Rightarrow> Inl err
      | Inr data_dict \<Rightarrow> rows_loop mets dim item_id rest (df_append data_df (from_dict data_dict)))"

text \<open>
  \<^verbatim>\<open>for item_id in item_ids\<close>: one report per item id. The call passes no \<^verbatim>\<open>limit\<close>, so
  \<^verbatim>\<open>_get_report\<close> takes its default, 50. A response without rows raises.
\<close>

fun items_loop ::
  "env \<Rightarrow> string list \<Rightarrow> string \<Rightarrow> string list \<Rightarrow> (string \<times> string) list option \<Rightarrow> string \<Rightarrow>
   string option \<Rightarrow> string option \<Rightarrow> string list \<Rightarrow> dataframe \<Rightarrow> report_body list \<Rightarrow>
   report_body list \<times> (error + dataframe)" where
  "items_loop e mets dim segments search_query breakdown_dimension start_date end_date [] data_df posted =
     (posted, Inr data_df)"
| "items_loop e mets dim segments search_query breakdown_dimension start_date end_date
     (item_id # rest) data_df posted =
     (case get_report e mets (Some dim) (Some segments) search_query (Some breakdown_dimension)
             (Some item_id) start_date end_date 50 posted of
        (posted', Inl err) \<Rightarrow> (posted', Inl err)
      | (posted', Inr resp_2) \<Rightarrow>
          if length (rows resp_2) = 0
          then (posted', Inl (PyException
                 ''API returned no results. If there is a segment filter try removing it.''))
          else (case rows_loop mets dim item_id (rows resp_2) data_df of
                  Inl err \<Rightarrow> (posted', Inl err)
                | Inr data_df' \<Rightarrow>
                    items_loop e mets dim segments search_query breakdown_dimension start_date
                      end_date rest data_df' posted'))"

text \<open>
  The variables the loop over the dimensions carries from one round to the next. Round 0
  assigns all three before anything reads them, so their initial values are never seen.
\<close>

record loop_vars =
  result_df :: dataframe
  breakdown_dim :: string
  item_ids :: "string list"

definition stage1 ::
  "env \<Rightarrow> string list \<Rightarrow> string \<Rightarrow> string list \<Rightarrow> (string \<times> string) list option \<Rightarrow>
   string option \<Rightarrow> string option \<Rightarrow> int \<Rightarrow> report_body list \<Rightarrow>
   report_body list \<times> (error + loop_vars)" where
  "stage1 e mets dim segments search_query start_date end_date lim posted =
     (case get_report e mets (Some dim) (Some segments) search_query None None start_date end_date
             lim posted of
        (posted', Inl err) \<Rightarrow> (posted', Inl err)
      | (posted', Inr resp_1) \<Rightarrow>
          (posted', Inr \<lparr>result_df = fill_result_df dim (enumerate 0 (rows resp_1)) empty_df,
                         breakdown_dim = columns_dimension_id resp_1,
                         item_ids = map itemId (rows resp_1)\<rparr>))"

definition stage2 ::
  "env \<Rightarrow> string list \<Rightarrow> string \<Rightarrow> string list \<Rightarrow> (string \<times> string) list option \<Rightarrow>
   string option \<Rightarrow> string option \<Rightarrow> loop_vars \<Rightarrow> report_body list \<Rightarrow>
   report_body list \<times> (error + loop_vars)" where
  "stage2 e mets dim segments search_query start_date end_date vars posted =
     (case items_loop e mets dim segments search_query (breakdown_dim vars) start_date end_date
             (item_ids vars) empty_df posted of
        (posted', Inl err) \<Rightarrow> (posted', Inl err)
      | (posted', Inr data_df) \<Rightarrow>
          (case merge_on_item_id (result_df vars) data_df of
             Inl err \<Rightarrow> (posted', Inl err)
           | Inr merged \<Rightarrow> (posted', Inr (vars\<lparr>result_df := merged\<rparr>))))"

text \<open>\<^verbatim>\<open>for i, dim in enumerate(dims)\<close>: round 0 runs stage 1, round 1 runs stage 2.\<close>

fun dims_loop ::
  "env \<Rightarrow> string list \<Rightarrow> string list \<Rightarrow> (string \<times> string) list option \<Rightarrow>
   string option \<Rightarrow> string option \<Rightarrow> int \<Rightarrow> (nat \<times> string) list \<Rightarrow> loop_vars \<Rightarrow>
   report_body list \<Rightarrow> report_body list \<times> (error + loop_vars)" where
  "dims_loop e mets segments search_query start_date end_date lim [] vars posted =
     (posted, Inr vars)"
| "dims_loop e mets segments search_query start_date end_date lim ((i, dim) # rest) vars posted =
     (case (if i = 0 then stage1 e mets dim segments search_query start_date end_date lim posted
            else (posted, Inr vars)) of
        (posted1, Inl err) \<Rightarrow> (posted1, Inl err)
      | (posted1, Inr vars1) \<Rightarrow>
          (case (if i = 1
                 then stage2 e mets dim segments search_query start_date end_date vars1 posted1
                 else (posted1, Inr vars1)) of
             (posted2, Inl err) \<Rightarrow> (posted2, Inl err)
           | (posted2, Inr vars2) \<Rightarrow>
               dims_loop e mets segments search_query start_date end_date lim rest vars2 posted2))"

text \<open>
  \<^verbatim>\<open>get_freeform_report\<close>. The result is the list of report bodies posted, in order, and
  either the exception raised or the table returned.
\<close>

definition get_freeform_report ::
  "env \<Rightarrow> string list \<Rightarrow> string list \<Rightarrow> string list \<Rightarrow> (string \<times> string) list option \<Rightarrow>
   string option \<Rightarrow> string option \<Rightarrow> int \<Rightarrow> report_body list \<times> (error + dataframe)" where
  "get_freeform_report e mets dims segments search_query start_date end_date lim =
     (if length dims = 0 then ([], Inl (PyException ''Please provide at least one dimension.''))
      else if length mets = 0 then ([], Inl (PyException ''Please provide at least one metric.''))
      else if length dims > 2
      then ([], Inl (PyException ''More than 2 dimensions is not currently supported.''))
      else if length segments > 1
      then ([], Inl (PyException ''More than 1 segment is not currently supported.''))
      else
        (case dims_loop e mets segments search_query start_date end_date lim (enumerate 0 dims)
                \<lparr>result_df = empty_df, breakdown_dim = [], item_ids = []\<rparr> [] of
           (posted, Inl err) \<Rightarrow> (posted, Inl err)
         | (posted, Inr vars) \<Rightarrow>
             (case drop_item_id (result_df vars) of
                Inl err \<Rightarrow> (posted, Inl err)
              | Inr table \<Rightarrow> (posted, Inr table))))"

section \<open>The metadata client\<close>

text \<open>
  A row of a metadata listing: its id, its name and the remaining fields. The selection
  \<^verbatim>\<open>[["id", "name"]]\<close> keeps the first two only.
\<close>

record meta_row =
  meta_id :: string
  meta_name :: string
  meta_other :: pydict

definition id_name :: "meta_row \<Rightarrow> meta_row" where
  "id_name r = r\<lparr>meta_other := []\<rparr>"

text \<open>
  Text is modelled where it is ASCII: there a character is one byte, and \<^verbatim>\<open>str.lower\<close>
  and the case-insensitive matching of regular expressions change the letters A to Z
  only. Python folds every cased character of Unicode; text with a character outside ASCII
  is outside the model, and \<open>lower\<close> and \<open>str_contains\<close> give \<open>None\<close> for it.
\<close>

definition is_ascii :: "char \<Rightarrow> bool" where
  "is_ascii c = (\<not> digit7 c)"

definition ascii_text :: "string \<Rightarrow> bool" where
  "ascii_text s = list_all is_ascii s"

definition ascii_lower_char :: "char \<Rightarrow> char" where
  "ascii_lower_char c =
     (case map_of (zip ''ABCDEFGHIJKLMNOPQRSTUVWXYZ'' ''abcdefghijklmnopqrstuvwxyz'') c of
        None \<Rightarrow> c
      | Some l \<Rightarrow> l)"

definition ascii_lower :: "string \<Rightarrow> string" where
  "ascii_lower s = map ascii_lower_char s"

text \<open>\<^verbatim>\<open>str.lower\<close>.\<close>

definition lower :: "string \<Rightarrow> string option" where
  "lower s = (if ascii_text s then Some (ascii_lower s) else None)"

text \<open>\<^verbatim>\<open>sep.join(xs)\<close>.\<close>

fun join :: "string \<Rightarrow> string list \<Rightarrow> string" where
  "join sep [] = []"
| "join sep [x] = x"
| "join sep (x # y # ys) = x @ sep @ join sep (y # ys)"

text \<open>
  \<^verbatim>\<open>Series.str.contains(pat, case=False)\<close> takes \<^verbatim>\<open>pat\<close> as a regular expression
  (\<^verbatim>\<open>regex=True\<close> is the default) and searches each name for it, ignoring case. The
  regular expressions modelled are the alternatives, separated by \<^verbatim>\<open>|\<close>, of sequences of
  plain characters and \<^verbatim>\<open>.\<close> (any character but a newline), over ASCII text. A pattern
  with one of the other special characters is outside the model: \<open>compile\<close> gives \<open>None\<close>
  there, and so does a listing that searches for it.
\<close>

datatype atom = AnyChar | Lit char

definition unmodelled_chars :: "char list" where
  "unmodelled_chars = ''^$*+?{}[]()'' @ [CHR 0x5C]"

fun split_bar :: "string \<Rightarrow> string list" where
  "split_bar [] = [[]]"
| "split_bar (c # cs) =
     (if c = CHR ''|'' then [] # split_bar cs
      else (case split_bar cs of [] \<Rightarrow> [[c]] | a # as \<Rightarrow> (c # a) # as))"

fun parse_alt :: "string \<Rightarrow> atom list option" where
  "parse_alt [] = Some []"
| "parse_alt (c # cs) =
     (if c \<in> set unmodelled_chars then None
      else (case parse_alt cs of
              None \<Rightarrow> None
            | Some atoms \<Rightarrow> Some ((if c = CHR ''.'' then AnyChar else Lit c) # atoms)))"

definition compile :: "string \<Rightarrow> atom list list option" where
  "compile pat = those (map parse_alt (split_bar pat))"

text \<open>The match of one atom against one ASCII character, ignoring the case of letters.\<close>

fun atom_matches :: "atom \<Rightarrow> char \<Rightarrow> bool" where
  "atom_matches AnyChar c = (c \<noteq> CHR 0x0A)"
| "atom_matches (Lit l) c = (ascii_lower_char l = ascii_lower_char c)"

fun match_here :: "atom list \<Rightarrow> string \<Rightarrow> bool" where
  "match_here [] s = True"
| "match_here (a # as) [] = False"
| "match_here (a # as) (c # cs) = (atom_matches a c \<and> match_here as cs)"

fun re_search :: "atom list \<Rightarrow> string \<Rightarrow> bool" where
  "re_search alt [] = match_here alt []"
| "re_search alt (c # cs) = (match_here alt (c # cs) \<or> re_search alt cs)"

definition str_contains :: "string \<Rightarrow> string \<Rightarrow> bool option" where
  "str_contains pat s =
     (if ascii_text pat \<and> ascii_text s
      then (case compile pat of
              None \<Rightarrow> None
            | Some alts \<Rightarrow> Some (list_ex (\<lambda>alt. re_search alt s) alts))
      else None)"

text \<open>\<^verbatim>\<open>df[mask]\<close>: the rows whose entry in the boolean mask is true.\<close>

definition select_rows :: "'a list \<Rightarrow> bool list \<Rightarrow> 'a list" where
  "select_rows rs keep = map fst (filter snd (zip rs keep))"

text \<open>
  \<^verbatim>\<open>get_dimensions\<close> and \<^verbatim>\<open>get_metrics\<close> differ in the URL they fetch only; the first
  argument is the parsed response of that request, a list of rows. The table made of an
  empty list has no column, so \<^verbatim>\<open>res_df['name']\<close> raises KeyError for it. The result is
  \<open>None\<close> where the text is outside the model.
\<close>

definition get_dimensions ::
  "meta_row list \<Rightarrow> string list \<Rightarrow> bool \<Rightarrow> (error + meta_row list) option" where
  "get_dimensions res_df search_terms exact =
     (if length search_terms = 0 then Some (Inr res_df)
      else if exact
      then (let search_dims = map lower search_terms
            in if res_df = [] then Some (Inl (KeyError ''name''))
               else (case (those search_dims, those (map (\<lambda>r. lower (meta_name r)) res_df)) of
                       (Some dims, Some names) \<Rightarrow>
                         Some (Inr (map id_name
                                 (select_rows res_df (map (\<lambda>n. n \<in> set dims) names))))
                     | _ \<Rightarrow> None))
      else (let search_dims = join ''|'' search_terms
            in if res_df = [] then Some (Inl (KeyError ''name''))
               else (case those (map (\<lambda>r. str_contains search_dims (meta_name r)) res_df) of
                       None \<Rightarrow> None
                     | Some keep \<Rightarrow> Some (Inr (map id_name (select_rows res_df keep))))))"

definition get_metrics ::
  "meta_row list \<Rightarrow> string list \<Rightarrow> bool \<Rightarrow> (error + meta_row list) option" where
  "get_metrics res_df search_terms exact =
     (if length search_terms = 0 then Some (Inr res_df)
      else if exact
      then (let search_dims = map lower search_terms
            in if res_df = [] then Some (Inl (KeyError ''name''))
               else (case (those search_dims, those (map (\<lambda>r. lower (meta_name r)) res_df)) of
                       (Some dims, Some names) \<Rightarrow>
                         Some (Inr (map id_name
                                 (select_rows res_df (map (\<lambda>n. n \<in> set dims) names))))
                     | _ \<Rightarrow> None))
      else (let search_dims = join ''|'' search_terms
            in if res_df = [] then Some (Inl (KeyError ''name''))
               else (case those (map (\<lambda>r. str_contains search_dims (meta_name r)) res_df) of
                       None \<Rightarrow> None
                     | Some keep \<Rightarrow> Some (Inr (map id_name (select_rows res_df keep))))))"

text \<open>
  The values a caller can pass for \<^verbatim>\<open>search_term\<close>; \<open>PyNone\<close> is also what the parameter
  holds when the caller passes nothing (\<^verbatim>\<open>search_term=None\<close>).
\<close>

datatype pyval = PyNone | PyStr string | PyInt int | PyBool bool

text \<open>\<^verbatim>\<open>str(n)\<close> for an integer.\<close>

fun digits :: "nat \<Rightarrow> string" where
  "digits n = (if n < 10 then [''0123456789'' ! n] else digits (n div 10) @ [''0123456789'' ! (n mod 10)])"

definition str_int :: "int \<Rightarrow> string" where
  "str_int i = (if i < 0 then CHR ''-'' # digits (nat (- i)) else digits (nat i))"

text \<open>
  \<^verbatim>\<open>get_calculated_metrics\<close> and \<^verbatim>\<open>get_segments\<close>: the first argument is the GET request
  (from the URL to the \<^verbatim>\<open>content\<close> of the response), the second the base URL, the third
  the report suite id. Only a string passes \<^verbatim>\<open>assert isinstance(search_term, str)\<close>; an
  empty string is false in \<^verbatim>\<open>if search_term\<close>, so it adds no \<^verbatim>\<open>name\<close> parameter.
\<close>

definition get_calculated_metrics ::
  "(string \<Rightarrow> meta_row list) \<Rightarrow> string \<Rightarrow> string \<Rightarrow> pyval \<Rightarrow> int \<Rightarrow> error + meta_row list" where
  "get_calculated_metrics http_get base_url rsid search_term lim =
     (case search_term of
        PyStr s \<Rightarrow>
          (let url = base_url @ ''/calculatedmetrics/?rsid='' @ rsid @ ''&includeType=all&limit=''
                       @ str_int lim;
               url = (if s \<noteq> [] then url @ ''&name='' @ s else url)
           in Inr (http_get url))
      | _ \<Rightarrow> Inl (AssertionError ''Search term must be a string.''))"

definition get_segments ::
  "(string \<Rightarrow> meta_row list) \<Rightarrow> string \<Rightarrow> string \<Rightarrow> pyval \<Rightarrow> int \<Rightarrow> error + meta_row list" where
  "get_segments http_get base_url rsid search_term lim =
     (case search_term of
        PyStr s \<Rightarrow>
          (let url = base_url @ ''/segments?rsids='' @ rsid @ ''&includeType=all&limit=''
                       @ str_int lim;
               url = (if s \<noteq> [] then url @ ''&name='' @ s else url)
           in Inr (http_get url))
      | _ \<Rightarrow> Inl (AssertionError ''Search term must be a string.''))"

section \<open>Example responses\<close>

text \<open>
  A reporting endpoint for the examples: a request whose row dimension is \<^verbatim>\<open>page\<close> gets
  the rows \<open>rows_1\<close>, any other request the rows that \<open>rows_2\<close> gives for the item ids of
  its metric filters.
\<close>

definition example_env :: "row list \<Rightarrow> (string option list \<Rightarrow> row list) \<Rightarrow> env" where
  "example_env rows_1 rows_2 =
     \<lparr>env_rsid = ''suite'',
      env_post = (\<lambda>b. if dimension b = Some ''page''
                       then \<lparr>columns_dimension_id = ''variables/page'', rows = rows_1\<rparr>
                       else \<lparr>columns_dimension_id = ''variables/browser'',
                             rows = rows_2 (map filter_itemId (metricFilters b))\<rparr>),
      env_today = ''2024-01-02'',
      env_yesterday = ''2024-01-01''\<rparr>"

definition page_rows :: "row list" where
  "page_rows = [\<lparr>itemId = ''1'', row_value = ''home'', row_data = [JNum 7]\<rparr>,
                \<lparr>itemId = ''2'', row_value = ''cart'', row_data = [JNum 3]\<rparr>]"

definition browser_rows :: "string option list \<Rightarrow> row list" where
  "browser_rows ids =
     (if ids = [Some ''1'']
      then [\<lparr>itemId = ''10'', row_value = ''firefox'', row_data = [JNum 4]\<rparr>,
            \<lparr>itemId = ''11'', row_value = ''safari'', row_data = [JNum 3]\<rparr>]
      else [\<lparr>itemId = ''10'', row_value = ''firefox'', row_data = [JNum 3]\<rparr>])"


section \<open>Notions used in the proofs\<close>

text \<open>The row that stage 1 writes for a row of its response.\<close>

definition stage1_row :: "string \<Rightarrow> row \<Rightarrow> pydict" where
  "stage1_row dim r = [(''item_id'', JStr (itemId r)), (dim, JStr (row_value r))]"

text \<open>The body that \<^verbatim>\<open>_get_report\<close> posts when it is given a search-query mapping.\<close>

definition posted_body ::
  "env \<Rightarrow> string list \<Rightarrow> string option \<Rightarrow> string list option \<Rightarrow> (string \<times> string) list \<Rightarrow>
   string option \<Rightarrow> string option \<Rightarrow> string option \<Rightarrow> string option \<Rightarrow> int \<Rightarrow> report_body" where
  "posted_body e mets dim segments q bd item sd ed lim =
     last (fst (get_report e mets dim segments (Some q) bd item sd ed lim []))"

text \<open>The dictionary of a stage-2 row, where building it does not raise.\<close>

definition data_dict_of :: "string list \<Rightarrow> string \<Rightarrow> string \<Rightarrow> row \<Rightarrow> pydict" where
  "data_dict_of mets dim item_id r =
     (case make_data_dict mets dim item_id r of Inl err \<Rightarrow> [] | Inr d \<Rightarrow> d)"

text \<open>A stage-2 response the assembler can use: it has rows, and none of them has more
  data values than there are metrics.\<close>

definition well_formed :: "string list \<Rightarrow> response \<Rightarrow> bool" where
  "well_formed mets resp =
     (rows resp \<noteq> [] \<and> list_all (\<lambda>r. length (row_data r) \<le> length mets) (rows resp))"


section \<open>The report builder: what every body carries\<close>

text \<open>
  The metric container has one entry per metric, numbered by position; the references to
  the filters depend on the breakdown dimension, the filter entries on the row dimension.
  Every body built carries \<^verbatim>\<open>countRepeatInstances = True\<close> and the limit that
  \<^verbatim>\<open>_get_report\<close> was called with.
\<close>

lemma build_metrics_result:
  "build_metrics dim breakdown_dimension item_id (enumerate n mets) (ms, fs) =
     (ms @ map (\<lambda>(idx, met). \<lparr>columnId = idx, metric_id = met,
                   filters = (if truthy breakdown_dimension then Some [idx] else None)\<rparr>)
               (enumerate n mets),
      fs @ (if truthy dim
            then map (\<lambda>(idx, met). \<lparr>filter_id = idx, filter_type = ''breakdown'',
                        filter_dimension = breakdown_dimension, filter_itemId = item_id\<rparr>)
                     (enumerate n mets)
            else []))"
  by (induction mets arbitrary: n ms fs) simp_all

lemma body_settings:
  "build_report_body_json e mets dim segments search_query breakdown_dimension item_id date_range lim = Inr b \<Longrightarrow>
   countRepeatInstances b \<and> limit b = lim \<and> dimension b = dim \<and>
   map (\<lambda>m. (columnId m, metric_id m)) (metrics b) = enumerate 0 mets \<and>
   length (metricFilters b) = (if truthy dim then length mets else 0)"
  by (auto simp: build_report_body_json_def build_metrics_result comp_def case_prod_unfold Let_def
           split: option.splits)

lemma build_report_body_json_None:
  "build_report_body_json e mets dim segments None breakdown_dimension item_id date_range lim =
     Inl AttributeError"
  by (simp add: build_report_body_json_def Let_def split: prod.splits)

lemma get_report_None:
  "get_report e mets dim segments None breakdown_dimension item_id start_date end_date lim posted =
     (posted, Inl AttributeError)"
  by (simp add: get_report_def build_report_body_json_None)

section \<open>Preconditions of the assembler\<close>

text \<open>
  C3. A call with no dimension, or no metric, or more than two dimensions, or more than one
  segment raises the exception of the failed check (the \<^verbatim>\<open>Exception\<close> with that check's
  message, the input error of the specification), and no report request has been posted.
\<close>

theorem freeform_rejects_bad_arguments:
  "dims = [] \<or> mets = [] \<or> length dims > 2 \<or> length segments > 1 \<Longrightarrow>
   fst (get_freeform_report e mets dims segments search_query start_date end_date lim) = [] \<and>
   snd (get_freeform_report e mets dims segments search_query start_date end_date lim) \<in>
     {Inl (PyException ''Please provide at least one dimension.''),
      Inl (PyException ''Please provide at least one metric.''),
      Inl (PyException ''More than 2 dimensions is not currently supported.''),
      Inl (PyException ''More than 1 segment is not currently supported.'')}"
  by (auto simp: get_freeform_report_def)

theorem freeform_rejects_bad_arguments_witness:
  "length [''page'', ''browser'', ''day''] > 2 \<and>
   fst (get_freeform_report (example_env page_rows browser_rows) [''visits'']
     [''page'', ''browser'', ''day''] [] (Some []) None None 50) = [] \<and>
   snd (get_freeform_report (example_env page_rows browser_rows) [''visits'']
     [''page'', ''browser'', ''day''] [] (Some []) None None 50) \<in>
     {Inl (PyException ''Please provide at least one dimension.''),
      Inl (PyException ''Please provide at least one metric.''),
      Inl (PyException ''More than 2 dimensions is not currently supported.''),
      Inl (PyException ''More than 1 segment is not currently supported.'')}"
proof -
  have long: "length [''page'', ''browser'', ''day''] > 2" by simp
  then have "[''page'', ''browser'', ''day''] = [] \<or> [''visits''] = [] \<or>
      length [''page'', ''browser'', ''day''] > 2 \<or> length ([] :: string list) > 1"
    by simp
  from freeform_rejects_bad_arguments [OF this] long show ?thesis by blast
qed

text \<open>
  C10. A call that passes the four checks and gives no search-query mapping raises
  (AttributeError, from reading the keys of \<^verbatim>\<open>None\<close> while the first body is built): no
  table is returned, and no request has been posted.
\<close>

theorem freeform_without_search_query_raises:
  "dims \<noteq> [] \<Longrightarrow> mets \<noteq> [] \<Longrightarrow> length dims \<le> 2 \<Longrightarrow> length segments \<le> 1 \<Longrightarrow>
   get_freeform_report e mets dims segments None start_date end_date lim = ([], Inl AttributeError)"
  by (cases dims) (auto simp: get_freeform_report_def stage1_def get_report_None)

theorem freeform_without_search_query_raises_witness:
  "[''page'', ''browser''] \<noteq> [] \<and> [''visits''] \<noteq> [] \<and>
   length [''page'', ''browser''] \<le> 2 \<and> length ([] :: string list) \<le> 1 \<and>
   get_freeform_report (example_env page_rows browser_rows) [''visits''] [''page'', ''browser''] []
     None (Some ''2024-01-01'') (Some ''2024-01-02'') 50 = ([], Inl AttributeError)"
  using freeform_without_search_query_raises
    [of "[''page'', ''browser'']" "[''visits'']" "[]" "example_env page_rows browser_rows"
        "Some ''2024-01-01''" "Some ''2024-01-02''" 50]
  by simp

section \<open>Where the code departs from its description\<close>

text \<open>
  C4. The claim: the metric container holds filter references and breakdown filter entries
  exactly when a breakdown dimension is given. The code guards the references with
  \<^verbatim>\<open>if breakdown_dimension\<close> and the entries with \<^verbatim>\<open>if dim\<close>: the stage-1 request, with a
  row dimension and no breakdown dimension, carries one breakdown entry per metric, with
  null dimension and null item id.
\<close>

theorem stage1_body_carries_breakdown_filters:
  "map_sum id (\<lambda>b. (map filters (metrics b), metricFilters b))
     (build_report_body_json e [''metrics/visits''] (Some ''variables/page'') (Some []) (Some [])
        None None date_range lim) =
   Inr ([None],
        [\<lparr>filter_id = 0, filter_type = ''breakdown'', filter_dimension = None,
          filter_itemId = None\<rparr>])"
  by (simp add: build_report_body_json_def)

text \<open>
  C7. The claim: a listing of calculated metrics or segments called without a search term
  returns all rows. The parameter then holds \<^verbatim>\<open>None\<close>, which is not a string, and the
  assertion at the head of both functions fails.
\<close>

theorem listing_without_search_term_raises:
  "get_calculated_metrics http_get base_url rsid PyNone lim =
     Inl (AssertionError ''Search term must be a string.'') \<and>
   get_segments http_get base_url rsid PyNone lim =
     Inl (AssertionError ''Search term must be a string.'')"
  by (simp add: get_calculated_metrics_def get_segments_def)

lemmas freeform_eval =
  get_freeform_report_def stage1_def stage2_def get_report_def build_report_body_json_def
  example_env_def page_rows_def browser_rows_def empty_df_def loc_set_def from_dict_def
  df_append_def merge_on_item_id_def merge_row_def suffixed_def drop_item_id_def
  make_data_dict_def Let_def

text \<open>
  C8. The claim: every report request carries the row limit the caller asked for. The
  stage-2 call of \<^verbatim>\<open>_get_report\<close> passes no limit, so the per-item requests carry the
  default 50: with limit 10, the three requests of the example carry 10, 50 and 50.
  \<^verbatim>\<open>countRepeatInstances\<close> is true in all three.
\<close>

theorem stage2_requests_carry_default_limit:
  "map (\<lambda>b. (countRepeatInstances b, limit b))
     (fst (get_freeform_report (example_env page_rows browser_rows) [''visits'']
        [''page'', ''browser''] [] (Some []) None None 10)) =
   [(True, 10), (True, 50), (True, 50)]"
  by (simp add: freeform_eval)

section \<open>Requests posted by the assembler\<close>

lemma get_report_posts:
  "get_report e mets dim segments (Some q) bd item sd ed lim posted =
     (posted @ [posted_body e mets dim segments q bd item sd ed lim],
      Inr (env_post e (posted_body e mets dim segments q bd item sd ed lim)))"
  by (auto simp: posted_body_def get_report_def build_report_body_json_def Let_def
           split: prod.splits option.splits)

lemma stage1_posts:
  "stage1 e mets dim segments (Some q) sd ed lim posted =
     (posted @ [posted_body e mets (Some dim) (Some segments) q None None sd ed lim],
      Inr \<lparr>result_df = fill_result_df dim (enumerate 0
                (rows (env_post e (posted_body e mets (Some dim) (Some segments) q None None sd ed lim))))
                empty_df,
            breakdown_dim = columns_dimension_id
                (env_post e (posted_body e mets (Some dim) (Some segments) q None None sd ed lim)),
            item_ids = map itemId
                (rows (env_post e (posted_body e mets (Some dim) (Some segments) q None None sd ed lim)))\<rparr>)"
  by (simp add: stage1_def get_report_posts)

lemma get_report_cases:
  assumes "get_report e mets dim segments sq bd item sd ed lim posted = (posted', r)"
  shows "(posted' = posted \<and> (\<exists>err. r = Inl err)) \<or>
         (\<exists>b. posted' = posted @ [b] \<and> r = Inr (env_post e b))"
  using assms by (auto simp: get_report_def Let_def split: sum.splits)

lemma items_loop_posted:
  "items_loop e mets dim segments sq bd sd ed ids data_df posted = (posted', res) \<Longrightarrow>
   \<exists>new. posted' = posted @ new \<and>
     (\<forall>k < length new. rows (env_post e (new ! k)) = [] \<longrightarrow>
        res = Inl (PyException ''API returned no results. If there is a segment filter try removing it.''))"
proof (induction ids arbitrary: data_df posted)
  case Nil
  then show ?case by simp
next
  case (Cons item_id rest)
  obtain p1 r1 where g: "get_report e mets (Some dim) (Some segments) sq (Some bd) (Some item_id) sd ed 50 posted = (p1, r1)"
    by (cases "get_report e mets (Some dim) (Some segments) sq (Some bd) (Some item_id) sd ed 50 posted") auto
  from get_report_cases[OF g] show ?case
  proof
    assume "p1 = posted \<and> (\<exists>err. r1 = Inl err)"
    with Cons.prems g show ?thesis by auto
  next
    assume "\<exists>b. p1 = posted @ [b] \<and> r1 = Inr (env_post e b)"
    then obtain b where b: "p1 = posted @ [b]" "r1 = Inr (env_post e b)" by blast
    show ?thesis
    proof (cases "rows (env_post e b) = []")
      case True
      with Cons.prems g b have "posted' = posted @ [b]" "res = Inl (PyException ''API returned no results. If there is a segment filter try removing it.'')"
        by auto
      then show ?thesis by simp
    next
      case False
      show ?thesis
      proof (cases "rows_loop mets dim item_id (rows (env_post e b)) data_df")
        case (Inl err)
        with Cons.prems g b False have "posted' = posted @ [b]" by auto
        moreover have "\<forall>k < length [b]. rows (env_post e ([b] ! k)) \<noteq> []" using False by simp
        ultimately show ?thesis by blast
      next
        case (Inr df')
        with Cons.prems g b False
        have "items_loop e mets dim segments sq bd sd ed rest df' (posted @ [b]) = (posted', res)" by auto
        from Cons.IH[OF this] obtain new where new: "posted' = (posted @ [b]) @ new"
          "\<forall>k < length new. rows (env_post e (new ! k)) = [] \<longrightarrow>
             res = Inl (PyException ''API returned no results. If there is a segment filter try removing it.'')"
          by blast
        have "\<forall>k < length (b # new). rows (env_post e ((b # new) ! k)) = [] \<longrightarrow>
             res = Inl (PyException ''API returned no results. If there is a segment filter try removing it.'')"
          using new(2) False by (auto simp: nth_Cons split: nat.splits)
        moreover have "posted' = posted @ (b # new)" using new(1) by simp
        ultimately show ?thesis by blast
      qed
    qed
  qed
qed

lemma stage1_posted:
  assumes "stage1 e mets dim segments sq sd ed lim posted = (posted', r)"
  shows "(posted' = posted \<and> (\<exists>err. r = Inl err)) \<or> (\<exists>b v. posted' = posted @ [b] \<and> r = Inr v)"
proof -
  obtain p g where g: "get_report e mets (Some dim) (Some segments) sq None None sd ed lim posted = (p, g)"
    by (cases "get_report e mets (Some dim) (Some segments) sq None None sd ed lim posted") auto
  from get_report_cases[OF g] assms g show ?thesis
    by (auto simp: stage1_def)
qed

lemma stage2_posted:
  assumes "stage2 e mets dim segments sq sd ed vars posted = (posted', res)"
  shows "\<exists>new. posted' = posted @ new \<and>
     (\<forall>k < length new. rows (env_post e (new ! k)) = [] \<longrightarrow>
        res = Inl (PyException ''API returned no results. If there is a segment filter try removing it.''))"
proof -
  obtain p r where il: "items_loop e mets dim segments sq (breakdown_dim vars) sd ed (item_ids vars) empty_df posted = (p, r)"
    by (cases "items_loop e mets dim segments sq (breakdown_dim vars) sd ed (item_ids vars) empty_df posted") auto
  from items_loop_posted[OF il] obtain new where new: "p = posted @ new"
     "\<forall>k < length new. rows (env_post e (new ! k)) = [] \<longrightarrow>
        r = Inl (PyException ''API returned no results. If there is a segment filter try removing it.'')"
    by blast
  have "posted' = p" using assms il by (auto simp: stage2_def split: sum.splits)
  moreover have "res = Inl x" if "r = Inl x" for x
    using assms il that by (auto simp: stage2_def split: sum.splits)
  ultimately show ?thesis using new by blast
qed

lemma dims_loop_posted:
  assumes run: "dims_loop e mets segments sq sd ed lim (enumerate 0 dims) vars [] = (posted, res)"
    and len: "length dims \<le> 2"
    and k: "0 < k" "k < length posted"
    and empty: "rows (env_post e (posted ! k)) = []"
  shows "res = Inl (PyException ''API returned no results. If there is a segment filter try removing it.'')"
proof -
  from run k obtain d1 ds where dims: "dims = d1 # ds" by (cases dims) auto
  obtain p1 r1 where s1: "stage1 e mets d1 segments sq sd ed lim [] = (p1, r1)"
    by (cases "stage1 e mets d1 segments sq sd ed lim []") auto
  from stage1_posted[OF s1] show ?thesis
  proof
    assume "p1 = [] \<and> (\<exists>err. r1 = Inl err)"
    with run dims s1 have "posted = []" by auto
    with k show ?thesis by simp
  next
    assume "\<exists>b v. p1 = [] @ [b] \<and> r1 = Inr v"
    then obtain b v where b: "p1 = [b]" "r1 = Inr v" by auto
    show ?thesis
    proof (cases ds)
      case Nil
      with run dims s1 b have "posted = [b]" by auto
      with k show ?thesis by simp
    next
      case (Cons d2 ds')
      with len dims have ds': "ds' = []" by simp
      obtain p2 r2 where s2: "stage2 e mets d2 segments sq sd ed v [b] = (p2, r2)"
        by (cases "stage2 e mets d2 segments sq sd ed v [b]") auto
      from stage2_posted[OF s2] obtain new where new: "p2 = [b] @ new"
        "\<forall>k < length new. rows (env_post e (new ! k)) = [] \<longrightarrow>
           r2 = Inl (PyException ''API returned no results. If there is a segment filter try removing it.'')"
        by blast
      have posted: "posted = p2" using run dims Cons ds' s1 b s2 by (auto split: sum.splits)
      have res: "res = Inl x" if "r2 = Inl x" for x
        using run dims Cons ds' s1 b s2 that by (auto split: sum.splits)
      from k posted new(1) have "k - 1 < length new" "posted ! k = new ! (k - 1)"
        by (auto simp: nth_Cons split: nat.splits)
      with new(2) empty res show ?thesis by auto
    qed
  qed
qed

text \<open>
  C2. The first request posted is the stage-1 request, the later ones are the per-item
  requests of stage 2. If the response to any posted per-item request has no rows, the
  call raises the exception \<^verbatim>\<open>API returned no results ...\<close> (the empty-result error of
  the specification); the result is that exception, so no table, partial or not, is
  returned.
\<close>

theorem freeform_empty_drilldown_raises:
  assumes run: "get_freeform_report e mets dims segments sq sd ed lim = (posted, res)"
    and k: "0 < k" "k < length posted"
    and empty: "rows (env_post e (posted ! k)) = []"
  shows "res = Inl (PyException ''API returned no results. If there is a segment filter try removing it.'')"
proof -
  have npre: "length dims \<noteq> 0" "length mets \<noteq> 0" "\<not> length dims > 2" "\<not> length segments > 1"
    using run k by (auto simp: get_freeform_report_def split: if_splits)
  obtain p r where dl: "dims_loop e mets segments sq sd ed lim (enumerate 0 dims)
                \<lparr>result_df = empty_df, breakdown_dim = [], item_ids = []\<rparr> [] = (p, r)"
    by (cases "dims_loop e mets segments sq sd ed lim (enumerate 0 dims)
                \<lparr>result_df = empty_df, breakdown_dim = [], item_ids = []\<rparr> []") auto
  have p: "posted = p" using run npre dl by (auto simp: get_freeform_report_def split: sum.splits)
  have "r = Inl (PyException ''API returned no results. If there is a segment filter try removing it.'')"
    using dims_loop_posted[OF dl _ k(1)] npre k(2) empty p by auto
  with run npre dl show ?thesis by (auto simp: get_freeform_report_def)
qed

theorem freeform_empty_drilldown_raises_witness:
  "length (fst (get_freeform_report
       (example_env page_rows (\<lambda>ids. if ids = [Some ''2''] then [] else browser_rows ids))
       [''visits''] [''page'', ''browser''] [] (Some []) None None 50)) = 3 \<and>
   snd (get_freeform_report
       (example_env page_rows (\<lambda>ids. if ids = [Some ''2''] then [] else browser_rows ids))
       [''visits''] [''page'', ''browser''] [] (Some []) None None 50) =
     Inl (PyException ''API returned no results. If there is a segment filter try removing it.'')"
proof -
  let ?e = "example_env page_rows (\<lambda>ids. if ids = [Some ''2''] then [] else browser_rows ids)"
  let ?run = "get_freeform_report ?e [''visits''] [''page'', ''browser''] [] (Some []) None None 50"
  have run: "?run = (fst ?run, snd ?run)" by simp
  have len: "length (fst ?run) = 3" by (simp add: freeform_eval)
  have k: "(0::nat) < 2" "2 < length (fst ?run)" using len by simp_all
  have empty: "rows (env_post ?e (fst ?run ! 2)) = []" by (simp add: freeform_eval)
  from freeform_empty_drilldown_raises[OF run k empty] len show ?thesis by simp
qed

section \<open>The table of stage 1\<close>

lemma fill_result_df_step:
  assumes "dim \<noteq> ''item_id''" "length (df_rows df) = n" "df_columns df = [''item_id'', dim]"
  shows "fill_result_df dim (enumerate n rs) df =
         \<lparr>df_columns = [''item_id'', dim], df_rows = df_rows df @ map (stage1_row dim) rs\<rparr>"
  using assms
proof (induction rs arbitrary: df n)
  case Nil
  then show ?case by simp
next
  case (Cons r rs)
  let ?df = "loc_set (loc_set df n ''item_id'' (JStr (itemId r))) n dim (JStr (row_value r))"
  have cols: "df_columns ?df = [''item_id'', dim]"
    using Cons.prems by (simp add: loc_set_def)
  have rws: "df_rows ?df = df_rows df @ [stage1_row dim r]"
    using Cons.prems(1) Cons.prems(2)[symmetric]
    by (simp add: loc_set_def stage1_row_def list_update_append)
  have "fill_result_df dim (enumerate (Suc n) rs) ?df =
        \<lparr>df_columns = [''item_id'', dim], df_rows = df_rows ?df @ map (stage1_row dim) rs\<rparr>"
    by (rule Cons.IH[OF Cons.prems(1) _ cols]) (simp add: rws Cons.prems)
  then show ?case by (simp add: rws)
qed

lemma fill_result_df_empty_df:
  assumes "dim \<noteq> ''item_id''" "rs \<noteq> []"
  shows "fill_result_df dim (enumerate 0 rs) empty_df =
         \<lparr>df_columns = [''item_id'', dim], df_rows = map (stage1_row dim) rs\<rparr>"
proof -
  from assms obtain r rest where rs: "rs = r # rest" by (cases rs) auto
  let ?df = "loc_set (loc_set empty_df 0 ''item_id'' (JStr (itemId r))) 0 dim (JStr (row_value r))"
  have cols: "df_columns ?df = [''item_id'', dim]"
    using assms by (simp add: loc_set_def empty_df_def)
  have rws: "df_rows ?df = [stage1_row dim r]"
    using assms by (simp add: loc_set_def stage1_row_def empty_df_def)
  have "fill_result_df dim (enumerate (Suc 0) rest) ?df =
        \<lparr>df_columns = [''item_id'', dim], df_rows = df_rows ?df @ map (stage1_row dim) rest\<rparr>"
    by (rule fill_result_df_step[OF assms(1) _ cols]) (simp add: rws)
  then show ?thesis by (simp add: rs rws)
qed

text \<open>
  What a report on one dimension returns. For a dimension not named \<^verbatim>\<open>item_id\<close>, any
  metrics, a search-query mapping and at least one row in the response, exactly one
  request is posted and the table has one column, the dimension, with the values of the
  response in order.
\<close>

lemma freeform_one_dimension_table:
  assumes "dim \<noteq> ''item_id''" "mets \<noteq> []" "length segments \<le> 1"
    and run: "get_freeform_report e mets [dim] segments (Some q) sd ed lim = (posted, res)"
    and some: "rows (env_post e (posted ! 0)) \<noteq> []"
  shows "length posted = 1 \<and>
         res = Inr \<lparr>df_columns = [dim],
                     df_rows = map (\<lambda>r. [(dim, JStr (row_value r))]) (rows (env_post e (posted ! 0)))\<rparr>"
proof -
  let ?b = "posted_body e mets (Some dim) (Some segments) q None None sd ed lim"
  let ?rs = "rows (env_post e ?b)"
  have run': "(posted, res) = ([?b], case drop_item_id (fill_result_df dim (enumerate 0 ?rs) empty_df) of
                Inl err \<Rightarrow> Inl err | Inr table \<Rightarrow> Inr table)"
    using run assms(2,3) by (simp add: get_freeform_report_def stage1_posts split: sum.splits)
  then have "posted = [?b]" by simp
  with some have "?rs \<noteq> []" by simp
  from fill_result_df_empty_df[OF assms(1) this] run' assms(1)
  show ?thesis by (simp add: drop_item_id_def stage1_row_def comp_def)
qed

lemma freeform_one_dimension_table_example:
  "get_freeform_report (example_env page_rows browser_rows) [''visits''] [''page''] [] (Some [])
     (Some ''2024-01-01'') (Some ''2024-01-02'') 50 =
   (fst (get_freeform_report (example_env page_rows browser_rows) [''visits''] [''page''] []
           (Some []) (Some ''2024-01-01'') (Some ''2024-01-02'') 50),
    Inr \<lparr>df_columns = [''page''],
          df_rows = [[(''page'', JStr ''home'')], [(''page'', JStr ''cart'')]]\<rparr>)"
proof -
  let ?e = "example_env page_rows browser_rows"
  let ?run = "get_freeform_report ?e [''visits''] [''page''] [] (Some [])
                (Some ''2024-01-01'') (Some ''2024-01-02'') 50"
  have run: "?run = (fst ?run, snd ?run)" by simp
  have rs: "rows (env_post ?e (fst ?run ! 0)) = page_rows"
    by (simp add: freeform_eval)
  have some: "rows (env_post ?e (fst ?run ! 0)) \<noteq> []"
    unfolding rs by (simp add: page_rows_def)
  have "snd ?run = Inr \<lparr>df_columns = [''page''],
          df_rows = map (\<lambda>r. [(''page'', JStr (row_value r))]) page_rows\<rparr>"
    using freeform_one_dimension_table[OF _ _ _ run some] rs by simp
  then have "snd ?run = Inr \<lparr>df_columns = [''page''],
          df_rows = [[(''page'', JStr ''home'')], [(''page'', JStr ''cart'')]]\<rparr>"
    by (simp add: page_rows_def)
  with run show ?thesis by simp
qed

text \<open>
  C5. The claim: a report on the dimension \<^verbatim>\<open>page\<close> and the metric \<^verbatim>\<open>visits\<close> over the
  two dates posts one request and returns a table with the columns \<^verbatim>\<open>[page, visits]\<close>.
  Stage 1 asks for the metric and never reads \<^verbatim>\<open>row["data"]\<close>: one request is posted,
  its response carries the values 7 and 3 of the metric, and the table returned has the
  column \<^verbatim>\<open>page\<close> only.
\<close>

theorem freeform_one_dimension_drops_metrics:
  "length (fst (get_freeform_report (example_env page_rows browser_rows) [''visits''] [''page'']
       [] (Some []) (Some ''2024-01-01'') (Some ''2024-01-02'') 50)) = 1 \<and>
   map row_data (rows (env_post (example_env page_rows browser_rows)
     (hd (fst (get_freeform_report (example_env page_rows browser_rows) [''visits''] [''page'']
       [] (Some []) (Some ''2024-01-01'') (Some ''2024-01-02'') 50))))) = [[JNum 7], [JNum 3]] \<and>
   snd (get_freeform_report (example_env page_rows browser_rows) [''visits''] [''page'']
       [] (Some []) (Some ''2024-01-01'') (Some ''2024-01-02'') 50) =
     Inr \<lparr>df_columns = [''page''],
           df_rows = [[(''page'', JStr ''home'')], [(''page'', JStr ''cart'')]]\<rparr>"
  by (simp add: freeform_eval)

section \<open>The dictionary of a stage-2 row\<close>

lemma fill_data_dict_total:
  "n + length vs \<le> length mets \<Longrightarrow> \<exists>d'. fill_data_dict mets (enumerate n vs) d = Inr d'"
  by (induction vs arbitrary: n d) auto

lemma make_data_dict_total:
  "length (row_data r) \<le> length mets \<Longrightarrow>
   make_data_dict mets dim item_id r = Inr (data_dict_of mets dim item_id r)"
proof -
  assume "length (row_data r) \<le> length mets"
  then obtain d' where "fill_data_dict mets (enumerate 0 (row_data r))
      (AList.update dim (JStr (row_value r)) (AList.update ''item_id'' (JStr item_id) [])) = Inr d'"
    using fill_data_dict_total[of 0 "row_data r" mets] by auto
  then show ?thesis by (simp add: data_dict_of_def make_data_dict_def)
qed

lemma fill_data_dict_other:
  "fill_data_dict mets ps d = Inr d' \<Longrightarrow> k \<notin> set mets \<Longrightarrow> map_of d' k = map_of d k"
proof (induction ps arbitrary: d)
  case Nil
  then show ?case by simp
next
  case (Cons p ps)
  obtain j v where p: "p = (j, v)" by (cases p)
  with Cons.prems have j: "j < length mets"
    and rest: "fill_data_dict mets ps (AList.update (mets ! j) v d) = Inr d'"
    by (auto split: if_splits)
  from j Cons.prems(2) have "mets ! j \<noteq> k" by auto
  with Cons.IH[OF rest Cons.prems(2)] show ?case by (simp add: update_conv')
qed

lemma fill_data_dict_keys:
  "fill_data_dict mets ps d = Inr d' \<Longrightarrow> set (map fst d') \<subseteq> set (map fst d) \<union> set mets"
proof (induction ps arbitrary: d)
  case Nil
  then show ?case by simp
next
  case (Cons p ps)
  obtain j v where p: "p = (j, v)" by (cases p)
  with Cons.prems have j: "j < length mets"
    and rest: "fill_data_dict mets ps (AList.update (mets ! j) v d) = Inr d'"
    by (auto split: if_splits)
  have "set (map fst (AList.update (mets ! j) v d)) \<subseteq> set (map fst d) \<union> set mets"
    using j by (auto simp: update_keys split: if_splits)
  with Cons.IH[OF rest] show ?case by blast
qed

lemma fill_data_dict_keeps_keys:
  "fill_data_dict mets ps d = Inr d' \<Longrightarrow> set (map fst d) \<subseteq> set (map fst d')"
proof (induction ps arbitrary: d)
  case Nil
  then show ?case by simp
next
  case (Cons p ps)
  obtain j v where p: "p = (j, v)" by (cases p)
  with Cons.prems have rest: "fill_data_dict mets ps (AList.update (mets ! j) v d) = Inr d'"
    by (auto split: if_splits)
  have "set (map fst d) \<subseteq> set (map fst (AList.update (mets ! j) v d))"
    by (auto simp: update_keys)
  with Cons.IH[OF rest] show ?case by blast
qed

lemma fill_data_dict_lookup:
  assumes "distinct mets" "n + length vs \<le> length mets"
  shows "\<exists>d'. fill_data_dict mets (enumerate n vs) d = Inr d' \<and>
           (\<forall>j < length vs. map_of d' (mets ! (n + j)) = Some (vs ! j)) \<and>
           (\<forall>i < n. map_of d' (mets ! i) = map_of d (mets ! i))"
  using assms(2)
proof (induction vs arbitrary: n d)
  case Nil
  then show ?case by simp
next
  case (Cons v vs)
  let ?d = "AList.update (mets ! n) v d"
  from Cons.prems have n: "n < length mets" and le: "Suc n + length vs \<le> length mets" by auto
  from Cons.IH[OF le, of ?d] obtain d' where d':
    "fill_data_dict mets (enumerate (Suc n) vs) ?d = Inr d'"
    "\<forall>j < length vs. map_of d' (mets ! (Suc n + j)) = Some (vs ! j)"
    "\<forall>i < Suc n. map_of d' (mets ! i) = map_of ?d (mets ! i)"
    by blast
  have run: "fill_data_dict mets (enumerate n (v # vs)) d = Inr d'"
    using n d'(1) by simp
  have here: "\<forall>j < length (v # vs). map_of d' (mets ! (n + j)) = Some ((v # vs) ! j)"
  proof (intro allI impI)
    fix j assume j: "j < length (v # vs)"
    show "map_of d' (mets ! (n + j)) = Some ((v # vs) ! j)"
    proof (cases j)
      case 0
      with d'(3) show ?thesis by (simp add: update_conv')
    next
      case (Suc j')
      with j d'(2) show ?thesis by simp
    qed
  qed
  have before: "\<forall>i < n. map_of d' (mets ! i) = map_of d (mets ! i)"
  proof (intro allI impI)
    fix i assume i: "i < n"
    with n assms(1) have "mets ! i \<noteq> mets ! n" by (simp add: nth_eq_iff_index_eq)
    with d'(3) i show "map_of d' (mets ! i) = map_of d (mets ! i)" by (simp add: update_conv')
  qed
  from run here before show ?case by blast
qed

text \<open>
  C9, as the code has it. When the requested metric ids are pairwise distinct and the row
  has no more data values than there are metrics, the dictionary of the row is built and
  holds the \<open>j\<close>-th data value under the \<open>j\<close>-th requested metric id.
\<close>

theorem data_dict_positional:
  assumes "distinct mets" "length (row_data r) \<le> length mets" "j < length (row_data r)"
  shows "\<exists>data_dict. make_data_dict mets dim item_id r = Inr data_dict \<and>
           map_of data_dict (mets ! j) = Some (row_data r ! j)"
  using fill_data_dict_lookup[OF assms(1), of 0 "row_data r"] assms(2,3)
  unfolding make_data_dict_def by fastforce

theorem data_dict_positional_witness:
  "\<exists>data_dict. make_data_dict [''visits'', ''orders''] ''browser'' ''1''
       \<lparr>itemId = ''10'', row_value = ''firefox'', row_data = [JNum 4, JNum 9]\<rparr> = Inr data_dict \<and>
     map_of data_dict ''orders'' = Some (JNum 9)"
  using data_dict_positional [of "[''visits'', ''orders'']"
      "\<lparr>itemId = ''10'', row_value = ''firefox'', row_data = [JNum 4, JNum 9]\<rparr>" 1 "''browser''" "''1''"]
  by simp

text \<open>
  C9 as stated fails when a metric is requested twice: the second value overwrites the
  first, so the value recorded under the metric id at position 0 is the data value at
  position 1.
\<close>

theorem data_dict_repeated_metric_counterexample:
  "make_data_dict [''visits'', ''visits''] ''browser'' ''1''
     \<lparr>itemId = ''10'', row_value = ''firefox'', row_data = [JNum 4, JNum 9]\<rparr> =
   Inr [(''item_id'', JStr ''1''), (''browser'', JStr ''firefox''), (''visits'', JNum 9)] \<and>
   map_of [(''item_id'', JStr ''1''), (''browser'', JStr ''firefox''), (''visits'', JNum 9)]
     ([''visits'', ''visits''] ! 0) \<noteq> Some ([JNum 4, JNum 9] ! 0)"
  by (simp add: make_data_dict_def)

section \<open>The join of the two stages\<close>

lemma data_dict_of_item_id:
  assumes "length (row_data r) \<le> length mets" "dim \<noteq> ''item_id''" "''item_id'' \<notin> set mets"
  shows "map_of (data_dict_of mets dim item_id r) ''item_id'' = Some (JStr item_id)"
proof -
  from make_data_dict_total[OF assms(1)]
  have "fill_data_dict mets (enumerate 0 (row_data r))
          (AList.update dim (JStr (row_value r)) (AList.update ''item_id'' (JStr item_id) [])) =
        Inr (data_dict_of mets dim item_id r)"
    by (simp add: make_data_dict_def)
  from fill_data_dict_other[OF this assms(3)] assms(2) show ?thesis
    by (simp add: update_conv')
qed

lemma data_dict_of_keys:
  assumes "length (row_data r) \<le> length mets"
  shows "set (map fst (data_dict_of mets dim item_id r)) \<subseteq> {''item_id'', dim} \<union> set mets"
    and "''item_id'' \<in> set (map fst (data_dict_of mets dim item_id r))"
proof -
  from make_data_dict_total[OF assms(1)]
  have run: "fill_data_dict mets (enumerate 0 (row_data r))
          (AList.update dim (JStr (row_value r)) (AList.update ''item_id'' (JStr item_id) [])) =
        Inr (data_dict_of mets dim item_id r)"
    by (simp add: make_data_dict_def)
  from fill_data_dict_keys[OF run]
  show "set (map fst (data_dict_of mets dim item_id r)) \<subseteq> {''item_id'', dim} \<union> set mets"
    by (auto simp: update_keys split: if_splits)
  from fill_data_dict_keeps_keys[OF run]
  show "''item_id'' \<in> set (map fst (data_dict_of mets dim item_id r))"
    by (auto simp: update_keys split: if_splits)
qed

lemma rows_loop_Inr:
  assumes "list_all (\<lambda>r. length (row_data r) \<le> length mets) rs"
  shows "\<exists>df'. rows_loop mets dim item_id rs df = Inr df' \<and>
           df_rows df' = df_rows df @ map (data_dict_of mets dim item_id) rs \<and>
           set (df_columns df') \<subseteq> set (df_columns df) \<union> ({''item_id'', dim} \<union> set mets) \<and>
           set (df_columns df) \<subseteq> set (df_columns df') \<and>
           (rs \<noteq> [] \<longrightarrow> ''item_id'' \<in> set (df_columns df'))"
  using assms
proof (induction rs arbitrary: df)
  case Nil
  then show ?case by auto
next
  case (Cons r rs)
  let ?d = "data_dict_of mets dim item_id r"
  let ?df = "df_append df (from_dict ?d)"
  from Cons.prems have r: "length (row_data r) \<le> length mets"
    and rs: "list_all (\<lambda>r. length (row_data r) \<le> length mets) rs" by auto
  from Cons.IH[OF rs, of ?df] obtain df' where df':
    "rows_loop mets dim item_id rs ?df = Inr df'"
    "df_rows df' = df_rows ?df @ map (data_dict_of mets dim item_id) rs"
    "set (df_columns df') \<subseteq> set (df_columns ?df) \<union> ({''item_id'', dim} \<union> set mets)"
    "set (df_columns ?df) \<subseteq> set (df_columns df')"
    by blast
  have cols: "set (df_columns ?df) = set (df_columns df) \<union> set (map fst ?d)"
    by (auto simp: df_append_def from_dict_def)
  have "rows_loop mets dim item_id (r # rs) df = Inr df'"
    using df'(1) make_data_dict_total[OF r] by simp
  moreover have "df_rows df' = df_rows df @ map (data_dict_of mets dim item_id) (r # rs)"
    using df'(2) by (simp add: df_append_def from_dict_def)
  moreover have "set (df_columns df') \<subseteq> set (df_columns df) \<union> ({''item_id'', dim} \<union> set mets)"
    using df'(3) cols data_dict_of_keys(1)[OF r, of dim item_id] by blast
  moreover have "set (df_columns df) \<subseteq> set (df_columns df')"
    using df'(4) cols by blast
  moreover have "''item_id'' \<in> set (df_columns df')"
    using df'(4) cols data_dict_of_keys(2)[OF r, of dim item_id] by blast
  ultimately show ?case by blast
qed

lemma items_loop_prefix:
  "items_loop e mets dim segments sq bd sd ed ids df posted = (posted', res) \<Longrightarrow>
   \<exists>new. posted' = posted @ new"
proof (induction ids arbitrary: df posted)
  case Nil
  then show ?case by simp
next
  case (Cons i rest)
  obtain p1 r1 where g: "get_report e mets (Some dim) (Some segments) sq (Some bd) (Some i) sd ed 50 posted = (p1, r1)"
    by (cases "get_report e mets (Some dim) (Some segments) sq (Some bd) (Some i) sd ed 50 posted") auto
  have p1: "\<exists>n. p1 = posted @ n"
    using g by (auto simp: get_report_def Let_def split: sum.splits)
  show ?case
  proof (cases "\<exists>df1. items_loop e mets dim segments sq bd sd ed rest df1 p1 = (posted', res)")
    case True
    then obtain df1 where "items_loop e mets dim segments sq bd sd ed rest df1 p1 = (posted', res)"
      by blast
    from Cons.IH[OF this] p1 show ?thesis by auto
  next
    case False
    with Cons.prems g have "posted' = p1" by (auto split: sum.splits if_splits)
    with p1 show ?thesis by simp
  qed
qed

lemma items_loop_run:
  assumes "items_loop e mets dim segments (Some q) bd sd ed ids df posted = (posted', res)"
    and "list_all (\<lambda>b. well_formed mets (env_post e b)) (drop (length posted) posted')"
  shows "posted' = posted @ map (\<lambda>i. posted_body e mets (Some dim) (Some segments) q (Some bd) (Some i) sd ed 50) ids \<and>
         (\<exists>df'. res = Inr df' \<and>
            df_rows df' = df_rows df @ concat (map (\<lambda>i. map (data_dict_of mets dim i)
               (rows (env_post e (posted_body e mets (Some dim) (Some segments) q (Some bd) (Some i) sd ed 50)))) ids) \<and>
            set (df_columns df') \<subseteq> set (df_columns df) \<union> ({''item_id'', dim} \<union> set mets) \<and>
            set (df_columns df) \<subseteq> set (df_columns df') \<and>
            (ids \<noteq> [] \<longrightarrow> ''item_id'' \<in> set (df_columns df')))"
  using assms
proof (induction ids arbitrary: df posted)
  case Nil
  then show ?case by auto
next
  case (Cons i rest)
  let ?B = "\<lambda>i. posted_body e mets (Some dim) (Some segments) q (Some bd) (Some i) sd ed 50"
  let ?rs = "rows (env_post e (?B i))"
  note g = get_report_posts[of e mets "Some dim" "Some segments" q "Some bd" "Some i" sd ed 50 posted]
  have wf: "well_formed mets (env_post e (?B i))"
   and rest_run: "\<exists>df1. rows_loop mets dim i ?rs df = Inr df1 \<and>
          items_loop e mets dim segments (Some q) bd sd ed rest df1 (posted @ [?B i]) = (posted', res)"
  proof -
    have or: "posted' = posted @ [?B i] \<or> (\<exists>df1. rows_loop mets dim i ?rs df = Inr df1 \<and>
          items_loop e mets dim segments (Some q) bd sd ed rest df1 (posted @ [?B i]) = (posted', res))"
      using Cons.prems(1) g by (auto split: sum.splits if_splits)
    have "\<exists>new. posted' = posted @ [?B i] @ new"
      using or items_loop_prefix[of e mets dim segments "Some q" bd sd ed rest _ "posted @ [?B i]" posted' res]
      by auto
    then obtain new where new: "posted' = posted @ [?B i] @ new" by blast
    with Cons.prems(2) show wf: "well_formed mets (env_post e (?B i))" by simp
    then have "?rs \<noteq> []" "list_all (\<lambda>r. length (row_data r) \<le> length mets) ?rs"
      by (auto simp: well_formed_def)
    with rows_loop_Inr[of mets ?rs dim i df] obtain df1 where "rows_loop mets dim i ?rs df = Inr df1"
      by blast
    with Cons.prems(1) g \<open>?rs \<noteq> []\<close>
    show "\<exists>df1. rows_loop mets dim i ?rs df = Inr df1 \<and>
          items_loop e mets dim segments (Some q) bd sd ed rest df1 (posted @ [?B i]) = (posted', res)"
      by auto
  qed
  from rest_run obtain df1 where df1: "rows_loop mets dim i ?rs df = Inr df1"
    and run: "items_loop e mets dim segments (Some q) bd sd ed rest df1 (posted @ [?B i]) = (posted', res)"
    by blast
  from wf have wfr: "?rs \<noteq> []" "list_all (\<lambda>r. length (row_data r) \<le> length mets) ?rs"
    by (auto simp: well_formed_def)
  from rows_loop_Inr[OF wfr(2), of dim i df] df1 wfr(1)
  have d1: "df_rows df1 = df_rows df @ map (data_dict_of mets dim i) ?rs"
    "set (df_columns df1) \<subseteq> set (df_columns df) \<union> ({''item_id'', dim} \<union> set mets)"
    "set (df_columns df) \<subseteq> set (df_columns df1)"
    "''item_id'' \<in> set (df_columns df1)"
    by auto
  from items_loop_prefix[OF run] obtain new where new: "posted' = (posted @ [?B i]) @ new" by blast
  with Cons.prems(2)
  have ok: "list_all (\<lambda>b. well_formed mets (env_post e b)) (drop (length (posted @ [?B i])) posted')"
    by simp
  from Cons.IH[OF run ok] obtain df' where df':
    "posted' = (posted @ [?B i]) @ map ?B rest" "res = Inr df'"
    "df_rows df' = df_rows df1 @ concat (map (\<lambda>i. map (data_dict_of mets dim i) (rows (env_post e (?B i)))) rest)"
    "set (df_columns df') \<subseteq> set (df_columns df1) \<union> ({''item_id'', dim} \<union> set mets)"
    "set (df_columns df1) \<subseteq> set (df_columns df')"
    by blast
  have "posted' = posted @ map ?B (i # rest)" using df'(1) by simp
  moreover have "df_rows df' = df_rows df @ concat (map (\<lambda>i. map (data_dict_of mets dim i) (rows (env_post e (?B i)))) (i # rest))"
    using df'(3) d1(1) by simp
  moreover have "set (df_columns df') \<subseteq> set (df_columns df) \<union> ({''item_id'', dim} \<union> set mets)"
    using df'(4) d1(2) by blast
  moreover have "set (df_columns df) \<subseteq> set (df_columns df')"
    using df'(5) d1(3) by blast
  moreover have "''item_id'' \<in> set (df_columns df')"
    using df'(5) d1(4) by blast
  ultimately show ?case using df'(2) by blast
qed

lemma filter_concat_key:
  assumes "distinct ids" "x \<in> set ids"
    and "\<And>i r. i \<in> set ids \<Longrightarrow> r \<in> set (g i) \<Longrightarrow> key (f i r) = Some (JStr i)"
  shows "filter (\<lambda>d. key d = Some (JStr x)) (concat (map (\<lambda>i. map (f i) (g i)) ids)) = map (f x) (g x)"
  using assms
proof (induction ids)
  case Nil
  then show ?case by simp
next
  case (Cons i ids)
  have all: "\<And>r. r \<in> set (g i) \<Longrightarrow> key (f i r) = Some (JStr i)"
    using Cons.prems(3) by simp
  show ?case
  proof (cases "x = i")
    case True
    have here: "filter (\<lambda>d. key d = Some (JStr x)) (map (f i) (g i)) = map (f i) (g i)"
      using all True by (auto simp: filter_map comp_def)
    have "\<And>d. d \<in> set (concat (map (\<lambda>i. map (f i) (g i)) ids)) \<Longrightarrow> key d \<noteq> Some (JStr x)"
      using Cons.prems(1,3) True by auto
    then have "filter (\<lambda>d. key d = Some (JStr x)) (concat (map (\<lambda>i. map (f i) (g i)) ids)) = []"
      by (simp add: filter_empty_conv)
    with here True show ?thesis by simp
  next
    case False
    have "filter (\<lambda>d. key d = Some (JStr x)) (map (f i) (g i)) = []"
      using all False by (auto simp: filter_empty_conv)
    moreover have "filter (\<lambda>d. key d = Some (JStr x)) (concat (map (\<lambda>i. map (f i) (g i)) ids)) = map (f x) (g x)"
      using Cons.IH Cons.prems False by auto
    ultimately show ?thesis by simp
  qed
qed

lemma merge_no_overlap:
  assumes "df_columns left = [''item_id'', d1]" "''item_id'' \<in> set (df_columns right)"
    "d1 \<notin> set (df_columns right)"
  shows "merge_on_item_id left right =
     Inr \<lparr>df_columns = [''item_id'', d1] @ filter (\<lambda>c. c \<noteq> ''item_id'') (df_columns right),
          df_rows = concat (map (\<lambda>l. map (\<lambda>r. l @ filter (\<lambda>(c, v). c \<noteq> ''item_id'') r)
                                     (filter (\<lambda>r. map_of r ''item_id'' = map_of l ''item_id'') (df_rows right)))
                           (df_rows left))\<rparr>"
proof -
  have ov: "filter (\<lambda>c. c \<in> set (df_columns right) \<and> c \<noteq> ''item_id'') (df_columns left) = []"
    using assms by simp
  have mr: "merge_row [] l r = l @ filter (\<lambda>(c, v). c \<noteq> ''item_id'') r" for l r
    by (simp add: merge_row_def suffixed_def case_prod_unfold)
  have sf: "map (suffixed [] s) cs = cs" for s cs
    by (induction cs) (simp_all add: suffixed_def)
  show ?thesis
    using assms(1,2) unfolding merge_on_item_id_def ov Let_def mr sf by simp
qed

lemma zip_map_same: "zip xs (map f xs) = map (\<lambda>x. (x, f x)) xs"
  by (induction xs) auto

lemma data_dict_of_dim:
  assumes "length (row_data r) \<le> length mets" "dim \<notin> set mets"
  shows "map_of (data_dict_of mets dim item_id r) dim = Some (JStr (row_value r))"
proof -
  from make_data_dict_total[OF assms(1)]
  have "fill_data_dict mets (enumerate 0 (row_data r))
          (AList.update dim (JStr (row_value r)) (AList.update ''item_id'' (JStr item_id) [])) =
        Inr (data_dict_of mets dim item_id r)"
    by (simp add: make_data_dict_def)
  from fill_data_dict_other[OF this assms(2)] show ?thesis
    by (simp add: update_conv')
qed

lemma map_of_filter_other:
  "k \<noteq> x \<Longrightarrow> map_of (filter (\<lambda>(c, v). c \<noteq> x) d) k = map_of d k"
  by (induction d) auto

lemma final_row_dim2:
  assumes "d2 \<noteq> ''item_id''" "d1 \<noteq> d2"
  shows "map_of (filter (\<lambda>(c, v). c \<noteq> ''item_id'')
            (stage1_row d1 r1 @ filter (\<lambda>(c, v). c \<noteq> ''item_id'') d)) d2 = map_of d d2"
  using assms by (simp add: stage1_row_def map_of_filter_other)

lemma final_row_dim1:
  assumes "d1 \<noteq> ''item_id''"
  shows "map_of (filter (\<lambda>(c, v). c \<noteq> ''item_id'') (stage1_row d1 r1) @ rest) d1
         = Some (JStr (row_value r1))"
  using assms by (simp add: stage1_row_def)

text \<open>
  The table of a report on two dimensions, when stage 1 has rows. Take two different
  dimensions and a search-query mapping, where no dimension and no metric is named
  \<^verbatim>\<open>item_id\<close> and no dimension is a metric id. The first request posted is the stage-1
  request, the others are the stage-2 requests. If the stage-1 response has at least one
  row and its item ids are pairwise distinct, and every stage-2 response has rows, none
  with more data values than there are metrics, then a table is returned; there is one
  stage-2 request per stage-1 row; the table has one row per row of a stage-2 response, in
  the order of the requests; the row holds the stage-1 value of the item id of its request
  under the first dimension and the value of the stage-2 row under the second.
\<close>

lemma freeform_two_dimensions_rows:
  assumes run: "get_freeform_report e mets [d1, d2] segments (Some q) sd ed lim = (posted, res)"
    and args: "mets \<noteq> []" "length segments \<le> 1"
    and names: "''item_id'' \<notin> {d1, d2} \<union> set mets" "d1 \<notin> {d2} \<union> set mets"
               "d2 \<notin> set mets"
    and first: "rows (env_post e (hd posted)) \<noteq> []"
               "distinct (map itemId (rows (env_post e (hd posted))))"
    and second: "list_all (\<lambda>b. rows (env_post e b) \<noteq> [] \<and>
                   list_all (\<lambda>r. length (row_data r) \<le> length mets) (rows (env_post e b))) (tl posted)"
  shows "\<exists>table. res = Inr table \<and>
           length (tl posted) = length (rows (env_post e (hd posted))) \<and>
           length (df_rows table) = sum_list (map (\<lambda>b. length (rows (env_post e b))) (tl posted)) \<and>
           map (\<lambda>r. map_of r d1) (df_rows table) =
             concat (map (\<lambda>(r1, b). replicate (length (rows (env_post e b))) (Some (JStr (row_value r1))))
                         (zip (rows (env_post e (hd posted))) (tl posted))) \<and>
           map (\<lambda>r. map_of r d2) (df_rows table) =
             concat (map (\<lambda>b. map (\<lambda>r. Some (JStr (row_value r))) (rows (env_post e b)))
                         (tl posted))"
proof -
  let ?b1 = "posted_body e mets (Some d1) (Some segments) q None None sd ed lim"
  let ?rs1 = "rows (env_post e ?b1)"
  let ?bd = "columns_dimension_id (env_post e ?b1)"
  let ?ids = "map itemId ?rs1"
  let ?B = "\<lambda>i. posted_body e mets (Some d2) (Some segments) q (Some ?bd) (Some i) sd ed 50"
  let ?g = "\<lambda>i. rows (env_post e (?B i))"
  let ?vars1 = "\<lparr>result_df = fill_result_df d1 (enumerate 0 ?rs1) empty_df,
                 breakdown_dim = ?bd, item_ids = ?ids\<rparr>"
  obtain p2 r2 where il: "items_loop e mets d2 segments (Some q) ?bd sd ed ?ids empty_df [?b1] = (p2, r2)"
    by (cases "items_loop e mets d2 segments (Some q) ?bd sd ed ?ids empty_df [?b1]") auto
  have s2: "stage2 e mets d2 segments (Some q) sd ed ?vars1 [?b1] =
      (p2, case r2 of Inl err \<Rightarrow> Inl err
           | Inr data_df \<Rightarrow> (case merge_on_item_id (result_df ?vars1) data_df of
                Inl err \<Rightarrow> Inl err | Inr merged \<Rightarrow> Inr (?vars1\<lparr>result_df := merged\<rparr>)))"
    using il by (simp add: stage2_def split: sum.splits)
  have posted: "posted = p2"
    using run args s2 by (auto simp: get_freeform_report_def stage1_posts split: sum.splits)
  from items_loop_prefix[OF il] obtain new where new: "p2 = [?b1] @ new" by blast
  have hd: "hd posted = ?b1" and tl: "tl posted = drop (length [?b1]) p2"
    using posted new by simp_all
  have wf: "list_all (\<lambda>b. well_formed mets (env_post e b)) (drop (length [?b1]) p2)"
    using second tl by (simp add: well_formed_def)
  from items_loop_run[OF il wf] obtain df' where df':
    "p2 = [?b1] @ map ?B ?ids" "r2 = Inr df'"
    "df_rows df' = df_rows empty_df @ concat (map (\<lambda>i. map (data_dict_of mets d2 i) (?g i)) ?ids)"
    "set (df_columns df') \<subseteq> set (df_columns empty_df) \<union> ({''item_id'', d2} \<union> set mets)"
    "?ids \<noteq> [] \<longrightarrow> ''item_id'' \<in> set (df_columns df')"
    by blast
  have tlp: "tl posted = map ?B ?ids" using posted df'(1) by simp
  have rs1: "?rs1 \<noteq> []" and dist: "distinct ?ids" using first hd by simp_all
  have left: "fill_result_df d1 (enumerate 0 ?rs1) empty_df =
        \<lparr>df_columns = [''item_id'', d1], df_rows = map (stage1_row d1) ?rs1\<rparr>"
    using fill_result_df_empty_df[OF _ rs1, of d1] names(1) by auto
  have wfi: "well_formed mets (env_post e (?B i))" if "i \<in> set ?ids" for i
    using wf df'(1) that by (auto simp: list_all_iff)
  have key: "map_of (data_dict_of mets d2 i r) ''item_id'' = Some (JStr i)"
    if "i \<in> set ?ids" "r \<in> set (?g i)" for i r
    using wfi[OF that(1)] that(2) names(1)
    by (intro data_dict_of_item_id) (auto simp: well_formed_def list_all_iff)
  have merged: "merge_on_item_id \<lparr>df_columns = [''item_id'', d1], df_rows = map (stage1_row d1) ?rs1\<rparr> df' =
     Inr \<lparr>df_columns = [''item_id'', d1] @ filter (\<lambda>c. c \<noteq> ''item_id'') (df_columns df'),
          df_rows = concat (map (\<lambda>l. map (\<lambda>r. l @ filter (\<lambda>(c, v). c \<noteq> ''item_id'') r)
                                     (filter (\<lambda>r. map_of r ''item_id'' = map_of l ''item_id'') (df_rows df')))
                           (map (stage1_row d1) ?rs1))\<rparr>"
    using merge_no_overlap[of "\<lparr>df_columns = [''item_id'', d1], df_rows = map (stage1_row d1) ?rs1\<rparr>" d1 df']
      df'(4,5) rs1 names
    by (auto simp: empty_df_def)
  let ?F = "\<lambda>r1 r. filter (\<lambda>(c, v). c \<noteq> ''item_id'')
                (stage1_row d1 r1 @ filter (\<lambda>(c, v). c \<noteq> ''item_id'') (data_dict_of mets d2 (itemId r1) r))"
  let ?table = "\<lparr>df_columns = filter (\<lambda>c. c \<noteq> ''item_id'') ([''item_id'', d1] @ filter (\<lambda>c. c \<noteq> ''item_id'') (df_columns df')),
                 df_rows = concat (map (\<lambda>r1. map (?F r1) (?g (itemId r1))) ?rs1)\<rparr>"
  have sel: "filter (\<lambda>r. map_of r ''item_id'' = map_of (stage1_row d1 r1) ''item_id'') (df_rows df')
             = map (data_dict_of mets d2 (itemId r1)) (?g (itemId r1))" if "r1 \<in> set ?rs1" for r1
  proof -
    have "map_of (stage1_row d1 r1) ''item_id'' = Some (JStr (itemId r1))"
      by (simp add: stage1_row_def)
    moreover have "filter (\<lambda>d. map_of d ''item_id'' = Some (JStr (itemId r1)))
            (concat (map (\<lambda>i. map (data_dict_of mets d2 i) (?g i)) ?ids))
          = map (data_dict_of mets d2 (itemId r1)) (?g (itemId r1))"
    proof (rule filter_concat_key[where ids = ?ids and x = "itemId r1" and g = ?g
              and f = "data_dict_of mets d2" and key = "\<lambda>d. map_of d ''item_id''"])
      show "distinct ?ids" by (rule dist)
      show "itemId r1 \<in> set ?ids" using that by simp
      show "map_of (data_dict_of mets d2 i r) ''item_id'' = Some (JStr i)"
        if "i \<in> set ?ids" "r \<in> set (?g i)" for i r
        using that by (rule key)
    qed
    ultimately show ?thesis by (simp only: df'(3) empty_df_def dataframe.simps append_Nil)
  qed
  have rows_eq: "map (filter (\<lambda>(c, v). c \<noteq> ''item_id''))
          (concat (map (\<lambda>l. map (\<lambda>r. l @ filter (\<lambda>(c, v). c \<noteq> ''item_id'') r)
                                     (filter (\<lambda>r. map_of r ''item_id'' = map_of l ''item_id'') (df_rows df')))
                           (map (stage1_row d1) ?rs1)))
        = concat (map (\<lambda>r1. map (?F r1) (?g (itemId r1))) ?rs1)"
    unfolding map_concat map_map comp_def
    by (rule arg_cong[where f = concat], rule map_cong) (simp_all add: sel comp_def)
  have res: "res = Inr ?table"
    using run args s2 df'(2) left merged rows_eq
    by (simp add: get_freeform_report_def stage1_posts drop_item_id_def)
  have len: "length (df_rows ?table) = sum_list (map (\<lambda>b. length (rows (env_post e b))) (tl posted))"
    by (simp add: tlp length_concat comp_def)
  have col: "map (\<lambda>r. map_of r d1) (df_rows ?table) =
             concat (map (\<lambda>(r1, b). replicate (length (rows (env_post e b))) (Some (JStr (row_value r1))))
                         (zip (rows (env_post e (hd posted))) (tl posted)))"
  proof -
    have d1: "d1 \<noteq> ''item_id''" using names(1) by auto
    have "map (\<lambda>r. map_of r d1) (df_rows ?table) =
          concat (map (\<lambda>r1. map (\<lambda>r. Some (JStr (row_value r1))) (?g (itemId r1))) ?rs1)"
      by (simp add: map_concat comp_def final_row_dim1[OF d1] del: map_of_append)
    also have "\<dots> = concat (map (\<lambda>r1. replicate (length (?g (itemId r1))) (Some (JStr (row_value r1)))) ?rs1)"
      by (simp add: map_replicate_const)
    also have "\<dots> = concat (map (\<lambda>(r1, b). replicate (length (rows (env_post e b))) (Some (JStr (row_value r1))))
                         (zip (rows (env_post e (hd posted))) (tl posted)))"
    proof -
      have "zip ?rs1 (map ?B ?ids) = map (\<lambda>r1. (r1, ?B (itemId r1))) ?rs1"
        using zip_map_same[of ?rs1 "\<lambda>r1. ?B (itemId r1)"] by (simp add: comp_def)
      then show ?thesis unfolding hd tlp by (simp add: comp_def)
    qed
    finally show ?thesis .
  qed
  have col2: "map (\<lambda>r. map_of r d2) (df_rows ?table) =
              concat (map (\<lambda>b. map (\<lambda>r. Some (JStr (row_value r))) (rows (env_post e b)))
                          (tl posted))"
  proof -
    have d2: "d2 \<noteq> ''item_id''" "d1 \<noteq> d2" using names(1,2) by auto
    have cell: "map_of (?F r1 r) d2 = Some (JStr (row_value r))"
      if "r1 \<in> set ?rs1" "r \<in> set (?g (itemId r1))" for r1 r
    proof -
      have "well_formed mets (env_post e (?B (itemId r1)))" using wfi that(1) by simp
      with that(2) have "length (row_data r) \<le> length mets"
        by (auto simp: well_formed_def list_all_iff)
      from data_dict_of_dim[OF this names(3)] show ?thesis
        by (simp only: final_row_dim2[OF d2])
    qed
    have "map (\<lambda>r. map_of r d2) (df_rows ?table) =
          concat (map (\<lambda>r1. map (\<lambda>r. map_of (?F r1 r) d2) (?g (itemId r1))) ?rs1)"
      by (simp add: map_concat comp_def del: map_of_append filter_append)
    also have "\<dots> = concat (map (\<lambda>r1. map (\<lambda>r. Some (JStr (row_value r))) (?g (itemId r1))) ?rs1)"
      by (rule arg_cong[where f = concat], rule map_cong, rule refl, rule map_cong, rule refl)
         (rule cell)
    finally show ?thesis by (simp add: tlp comp_def)
  qed
  show ?thesis using res len col col2 tlp hd by auto
qed

lemma freeform_two_dimensions_rows_example:
  "\<exists>table. snd (get_freeform_report (example_env page_rows browser_rows) [''visits'']
                [''page'', ''browser''] [] (Some []) None None 50) = Inr table \<and>
     length (df_rows table) = 3 \<and>
     map (\<lambda>r. map_of r ''page'') (df_rows table) =
       [Some (JStr ''home''), Some (JStr ''home''), Some (JStr ''cart'')]"
proof -
  let ?e = "example_env page_rows browser_rows"
  let ?run = "get_freeform_report ?e [''visits''] [''page'', ''browser''] [] (Some []) None None 50"
  have run: "?run = (fst ?run, snd ?run)" by simp
  have h1: "[''visits''] \<noteq> []" "length ([] :: string list) \<le> 1" by simp_all
  have h2: "''item_id'' \<notin> {''page'', ''browser''} \<union> set [''visits'']"
    "''page'' \<notin> {''browser''} \<union> set [''visits'']"
    "''browser'' \<notin> set [''visits'']" by simp_all
  have h3: "rows (env_post ?e (hd (fst ?run))) \<noteq> []"
    "distinct (map itemId (rows (env_post ?e (hd (fst ?run)))))"
    by (simp_all add: freeform_eval)
  have h4: "list_all (\<lambda>b. rows (env_post ?e b) \<noteq> [] \<and>
              list_all (\<lambda>r. length (row_data r) \<le> length [''visits'']) (rows (env_post ?e b)))
            (tl (fst ?run))"
    by (simp add: freeform_eval)
  have s: "sum_list (map (\<lambda>b. length (rows (env_post ?e b))) (tl (fst ?run))) = 3"
    by (simp add: freeform_eval)
  have c: "concat (map (\<lambda>(r1, b). replicate (length (rows (env_post ?e b))) (Some (JStr (row_value r1))))
                         (zip (rows (env_post ?e (hd (fst ?run)))) (tl (fst ?run)))) =
           [Some (JStr ''home''), Some (JStr ''home''), Some (JStr ''cart'')]"
    by (simp add: freeform_eval)
  from freeform_two_dimensions_rows[OF run h1 h2 h3 h4] s c show ?thesis by auto
qed

text \<open>
  C1. The claim: when all stage-2 requests of a report on two dimensions succeed, the
  table has as many rows as the stage-2 responses together. With a stage-1 response that
  has no row there is no item id: no stage-2 request is made, none fails, the sum of
  their row counts is 0, and the claim gives a table without rows. The code then merges
  two tables that have no column and raises KeyError on the join key: one request is
  posted and no table is returned.
\<close>

theorem freeform_empty_stage1_raises:
  "rows (env_post (example_env [] browser_rows)
     (hd (fst (get_freeform_report (example_env [] browser_rows) [''visits'']
        [''page'', ''browser''] [] (Some []) None None 50)))) = [] \<and>
   tl (fst (get_freeform_report (example_env [] browser_rows) [''visits'']
        [''page'', ''browser''] [] (Some []) None None 50)) = [] \<and>
   snd (get_freeform_report (example_env [] browser_rows) [''visits'']
        [''page'', ''browser''] [] (Some []) None None 50) = Inl (KeyError ''item_id'')"
  by (simp add: freeform_eval)

section \<open>Filtering a listing by name\<close>













text \<open>A listing without rows and a non-empty list of terms: the column of names is missing.\<close>

lemma listing_empty_raises:
  "search_terms \<noteq> [] \<Longrightarrow>
   get_dimensions [] search_terms exact = Some (Inl (KeyError ''name'')) \<and>
   get_metrics [] search_terms exact = Some (Inl (KeyError ''name''))"
  by (simp add: get_dimensions_def get_metrics_def)




end
